theory Spec2Isabelle
  imports Complex_Main
begin

section \<open>Data model\<close>

text \<open>
  The card descriptor of \<^verbatim>\<open>SwipeCard.tsx\<close> (interface \<^verbatim>\<open>SwipeCardData\<close>). The field
  \<^verbatim>\<open>type\<close> is a union of five string literals and becomes a datatype; an optional field
  is an \<open>option\<close>. The fields \<^verbatim>\<open>id\<close> and \<^verbatim>\<open>type\<close> carry the suffix \<open>_card\<close>,
  since \<open>id\<close> is the identity function of HOL.
\<close>

datatype card_type = Room | Restaurant | Experience | Facility | Event

fun type_name :: "card_type \<Rightarrow> string" where
  "type_name Room = ''room''"
| "type_name Restaurant = ''restaurant''"
| "type_name Experience = ''experience''"
| "type_name Facility = ''facility''"
| "type_name Event = ''event''"

record SwipeCardData =
  id_card :: string
  type_card :: card_type
  title :: string
  subtitle :: "string option"
  caption :: string
  image :: string
  price :: "real option"
  amenities :: "(string \<times> string) list option"
  tags :: "string list option"
  roomId :: "string option"
  menuItemId :: "string option"
  experienceId :: "string option"

section \<open>The drag gesture of a card (SwipeCard.tsx)\<close>

text \<open>
  JavaScript numbers are doubles. The handler only compares the two samples with the
  constants 100, 500 and 0 and takes absolute values; on finite doubles these operations
  are exact, so the samples are modelled as reals.
\<close>

record Point =
  px :: real
  py :: real

record PanInfo =
  offset :: Point
  velocity :: Point

definition SWIPE_THRESHOLD :: real where
  "SWIPE_THRESHOLD = 100"

definition SWIPE_VELOCITY :: real where
  "SWIPE_VELOCITY = 500"

text \<open>
  The state the handler writes: the flag \<^verbatim>\<open>isDragging\<close> and the two motion values
  \<^verbatim>\<open>x\<close> and \<^verbatim>\<open>y\<close>. The callbacks \<^verbatim>\<open>onSwipeLeft\<close> and \<^verbatim>\<open>onSwipeRight\<close> are
  props of the component; a call is recorded in the list \<open>calls\<close>, in order.
  \<^verbatim>\<open>
  const handleDragEnd = useCallback((_, info: PanInfo) => {
    setIsDragging(false);
    const velocity = info.velocity.x;
    const offset = info.offset.x;
    if (Math.abs(velocity) > SWIPE_VELOCITY || Math.abs(offset) > SWIPE_THRESHOLD) {
      const direction = offset > 0 || velocity > 0 ? 'right' : 'left';
      if (direction === 'right') { x.set(500); onSwipeRight(data); }
      else { x.set(-500); onSwipeLeft(data); }
    } else { x.set(0); y.set(0); }
  }, [data, onSwipeLeft, onSwipeRight, x, y]);
  \<close>
\<close>

datatype callback = OnSwipeLeft SwipeCardData | OnSwipeRight SwipeCardData

datatype direction = Right | Left

record card_state =
  isDragging :: bool
  x :: real
  y :: real
  calls :: "callback list"

definition handleDragEnd :: "SwipeCardData \<Rightarrow> PanInfo \<Rightarrow> card_state \<Rightarrow> card_state" where
  "handleDragEnd data info s =
     (let s1 = s\<lparr>isDragging := False\<rparr>;
          velocity = px (velocity info);
          offset = px (offset info)
      in if \<bar>velocity\<bar> > SWIPE_VELOCITY \<or> \<bar>offset\<bar> > SWIPE_THRESHOLD
         then (let direction = (if offset > 0 \<or> velocity > 0 then Right else Left)
               in if direction = Right
                  then s1\<lparr>x := 500, calls := calls s1 @ [OnSwipeRight data]\<rparr>
                  else s1\<lparr>x := - 500, calls := calls s1 @ [OnSwipeLeft data]\<rparr>)
         else s1\<lparr>x := 0, y := 0\<rparr>)"

text \<open>The final sample of a drag, from its horizontal offset and velocity.\<close>

definition sample :: "real \<Rightarrow> real \<Rightarrow> PanInfo" where
  "sample off vel = \<lparr>offset = \<lparr>px = off, py = 0\<rparr>, velocity = \<lparr>px = vel, py = 0\<rparr>\<rparr>"

text \<open>
  Test data: a card with the required fields only, and a card in the middle of a drag.
\<close>

definition mk_card :: "string \<Rightarrow> card_type \<Rightarrow> string \<Rightarrow> SwipeCardData" where
  "mk_card i t n =
     \<lparr>id_card = i, type_card = t, title = n, subtitle = None, caption = [], image = [],
      price = None, amenities = None, tags = None, roomId = None, menuItemId = None,
      experienceId = None\<rparr>"

definition dragging :: "real \<Rightarrow> real \<Rightarrow> card_state" where
  "dragging x0 y0 = \<lparr>isDragging = True, x = x0, y = y0, calls = []\<rparr>"

section \<open>The saved items (SwipeGallery.tsx)\<close>

subsection \<open>The platform: \<^verbatim>\<open>localStorage\<close> and \<^verbatim>\<open>JSON\<close>\<close>

text \<open>
  An exception is a value: every function that can throw returns \<open>exn + 'a\<close>, with
  \<open>Inl\<close> the exception thrown and \<open>Inr\<close> the value returned.
\<close>

datatype exn = SecurityError | QuotaExceededError | SyntaxError | TypeError

text \<open>
  What \<^verbatim>\<open>JSON.parse\<close> can return: any JSON value, not only an array of cards. The
  source declares the result as \<^verbatim>\<open>SwipeCardData[]\<close> and validates nothing, so at run
  time \<^verbatim>\<open>getSavedItems\<close> returns whatever the stored text holds. A number is a finite
  double, kept as a real; an object is the list of its properties.
\<close>

datatype json =
    JNull
  | JBool bool
  | JNum real
  | JStr string
  | JArr "json list"
  | JObj "(string \<times> json) list"

text \<open>
  A card as a value: the object that \<^verbatim>\<open>JSON.stringify\<close> writes for it. An optional
  field that is absent gives no property.
\<close>

definition optional :: "string \<Rightarrow> json option \<Rightarrow> (string \<times> json) list" where
  "optional k v = (case v of None \<Rightarrow> [] | Some j \<Rightarrow> [(k, j)])"

definition amenity_json :: "string \<times> string \<Rightarrow> json" where
  "amenity_json a = JObj [(''icon'', JStr (fst a)), (''name'', JStr (snd a))]"

definition card_json :: "SwipeCardData \<Rightarrow> json" where
  "card_json c =
     JObj ([(''id'', JStr (id_card c)),
            (''type'', JStr (type_name (type_card c))),
            (''title'', JStr (title c))]
           @ optional ''subtitle'' (map_option JStr (subtitle c))
           @ [(''caption'', JStr (caption c)),
              (''image'', JStr (image c))]
           @ optional ''price'' (map_option JNum (price c))
           @ optional ''amenities'' (map_option (\<lambda>as. JArr (map amenity_json as)) (amenities c))
           @ optional ''tags'' (map_option (\<lambda>ts. JArr (map JStr ts)) (tags c))
           @ optional ''roomId'' (map_option JStr (roomId c))
           @ optional ''menuItemId'' (map_option JStr (menuItemId c))
           @ optional ''experienceId'' (map_option JStr (experienceId c)))"

text \<open>
  The text stored under a key is kept up to what \<^verbatim>\<open>JSON.parse\<close> makes of it.
  \<open>Serialized v\<close> is a text that \<^verbatim>\<open>JSON.parse\<close> reads as the value \<open>v\<close>;
  \<^verbatim>\<open>JSON.stringify\<close> of \<open>v\<close> is such a text. \<open>Malformed t\<close> is the text \<open>t\<close>, one
  that \<^verbatim>\<open>JSON.parse\<close> rejects with a \<^verbatim>\<open>SyntaxError\<close>; the empty text is
  \<open>Malformed []\<close>.
\<close>

datatype blob = Serialized json | Malformed string

fun JSON_parse :: "blob \<Rightarrow> exn + json" where
  "JSON_parse (Serialized v) = Inr v"
| "JSON_parse (Malformed t) = Inl SyntaxError"

definition JSON_stringify :: "json \<Rightarrow> blob" where
  "JSON_stringify v = Serialized v"

text \<open>
  The truth value of \<^verbatim>\<open>saved\<close> in \<^verbatim>\<open>saved ? JSON.parse(saved) : []\<close>, where \<^verbatim>\<open>saved\<close>
  is a string or \<^verbatim>\<open>null\<close>: false for \<^verbatim>\<open>null\<close> and for the empty string.
\<close>

fun truthy :: "blob option \<Rightarrow> bool" where
  "truthy None = False"
| "truthy (Some (Malformed t)) = (t \<noteq> [])"
| "truthy (Some (Serialized v)) = True"

text \<open>
  Reading a property of a value, for the two names the source reads, \<^verbatim>\<open>id\<close> and
  \<^verbatim>\<open>type\<close>: on \<^verbatim>\<open>null\<close> it throws a \<^verbatim>\<open>TypeError\<close>; on an object it gives the
  property, or \<^verbatim>\<open>undefined\<close> (here \<open>None\<close>) when there is none; on every other value
  it gives \<^verbatim>\<open>undefined\<close>.
\<close>

fun get_prop :: "string \<Rightarrow> json \<Rightarrow> exn + json option" where
  "get_prop k JNull = Inl TypeError"
| "get_prop k (JObj kvs) = Inr (map_of kvs k)"
| "get_prop k v = Inr None"

text \<open>
  The three predicates the source passes to the array methods: \<^verbatim>\<open>s.id === itemId\<close>,
  \<^verbatim>\<open>s.id !== itemId\<close> and \<^verbatim>\<open>s.type === type\<close>. The right-hand side is a string, so
  the strict equality holds exactly when the property is that string.
\<close>

definition same_id :: "string \<Rightarrow> json \<Rightarrow> exn + bool" where
  "same_id itemId s =
     (case get_prop ''id'' s of Inl e \<Rightarrow> Inl e | Inr p \<Rightarrow> Inr (p = Some (JStr itemId)))"


definition same_type :: "string \<Rightarrow> json \<Rightarrow> exn + bool" where
  "same_type ty s =
     (case get_prop ''type'' s of Inl e \<Rightarrow> Inl e | Inr p \<Rightarrow> Inr (p = Some (JStr ty)))"

text \<open>
  The array methods \<^verbatim>\<open>find\<close>, \<^verbatim>\<open>some\<close> and \<^verbatim>\<open>filter\<close>. They visit the elements
  from the left; \<^verbatim>\<open>find\<close> and \<^verbatim>\<open>some\<close> stop at the first element that satisfies the
  predicate, \<^verbatim>\<open>filter\<close> visits all; an exception of the predicate ends the call. On a
  value that is not an array the method does not exist, and the call throws a
  \<^verbatim>\<open>TypeError\<close>.
\<close>

fun find_loop :: "(json \<Rightarrow> exn + bool) \<Rightarrow> json list \<Rightarrow> exn + json option" where
  "find_loop p [] = Inr None"
| "find_loop p (s # ss) =
     (case p s of
        Inl e \<Rightarrow> Inl e
      | Inr b \<Rightarrow> if b then Inr (Some s) else find_loop p ss)"

fun some_loop :: "(json \<Rightarrow> exn + bool) \<Rightarrow> json list \<Rightarrow> exn + bool" where
  "some_loop p [] = Inr False"
| "some_loop p (s # ss) =
     (case p s of
        Inl e \<Rightarrow> Inl e
      | Inr b \<Rightarrow> if b then Inr True else some_loop p ss)"

fun filter_loop :: "(json \<Rightarrow> exn + bool) \<Rightarrow> json list \<Rightarrow> exn + json list" where
  "filter_loop p [] = Inr []"
| "filter_loop p (s # ss) =
     (case p s of
        Inl e \<Rightarrow> Inl e
      | Inr b \<Rightarrow>
          (case filter_loop p ss of
             Inl e \<Rightarrow> Inl e
           | Inr kept \<Rightarrow> Inr (if b then s # kept else kept)))"

definition js_find :: "json \<Rightarrow> (json \<Rightarrow> exn + bool) \<Rightarrow> exn + json option" where
  "js_find saved p = (case saved of JArr ss \<Rightarrow> find_loop p ss | _ \<Rightarrow> Inl TypeError)"

definition js_some :: "json \<Rightarrow> (json \<Rightarrow> exn + bool) \<Rightarrow> exn + bool" where
  "js_some saved p = (case saved of JArr ss \<Rightarrow> some_loop p ss | _ \<Rightarrow> Inl TypeError)"

definition js_filter :: "json \<Rightarrow> (json \<Rightarrow> exn + bool) \<Rightarrow> exn + json list" where
  "js_filter saved p = (case saved of JArr ss \<Rightarrow> filter_loop p ss | _ \<Rightarrow> Inl TypeError)"

text \<open>
  The elements that the spread \<^verbatim>\<open>[...saved, item]\<close> takes from \<^verbatim>\<open>saved\<close>: those of an
  array, the characters of a string; no other JSON value can be iterated.
\<close>

definition spread :: "json \<Rightarrow> exn + json list" where
  "spread saved =
     (case saved of
        JArr ss \<Rightarrow> Inr ss
      | JStr cs \<Rightarrow> Inr (map (\<lambda>c. JStr [c]) cs)
      | _ \<Rightarrow> Inl TypeError)"

text \<open>
  The storage of the origin: the texts by key, and how the browser grants access.
  \<open>Available\<close>: reads and writes succeed. \<open>WriteDenied\<close>: reads succeed and every
  \<^verbatim>\<open>setItem\<close> throws (the quota is exhausted). \<open>Blocked\<close>: the storage is denied to
  the page, and reads and writes both throw. A \<^verbatim>\<open>setItem\<close> that throws stores nothing.
\<close>

datatype access = Available | WriteDenied | Blocked

record storage =
  entries :: "string \<Rightarrow> blob option"
  access :: access

definition localStorage_getItem :: "storage \<Rightarrow> string \<Rightarrow> exn + blob option" where
  "localStorage_getItem st k =
     (case access st of
        Blocked \<Rightarrow> Inl SecurityError
      | _ \<Rightarrow> Inr (entries st k))"

definition localStorage_setItem :: "storage \<Rightarrow> string \<Rightarrow> blob \<Rightarrow> exn + storage" where
  "localStorage_setItem st k v =
     (case access st of
        Blocked \<Rightarrow> Inl SecurityError
      | WriteDenied \<Rightarrow> Inl QuotaExceededError
      | Available \<Rightarrow> Inr (st\<lparr>entries := (entries st)(k \<mapsto> v)\<rparr>))"

subsection \<open>The object \<^verbatim>\<open>savedItemsManager\<close>\<close>

definition STORAGE_KEY :: string where
  "STORAGE_KEY = ''lotus_saved_items''"

text \<open>
  The body of the \<^verbatim>\<open>try\<close> block of \<^verbatim>\<open>getSavedItems\<close>, then the function with its
  \<^verbatim>\<open>catch\<close>.
  \<^verbatim>\<open>
  getSavedItems: (): SwipeCardData[] => {
    try {
      const saved = localStorage.getItem('lotus_saved_items');
      return saved ? JSON.parse(saved) : [];
    } catch { return []; }
  }
  \<close>
\<close>

definition getSavedItems_try :: "storage \<Rightarrow> exn + json" where
  "getSavedItems_try st =
     (case localStorage_getItem st STORAGE_KEY of
        Inl e \<Rightarrow> Inl e
      | Inr saved \<Rightarrow>
          (case saved of
             Some b \<Rightarrow> if truthy saved then JSON_parse b else Inr (JArr [])
           | None \<Rightarrow> Inr (JArr [])))"

definition getSavedItems :: "storage \<Rightarrow> exn + json" where
  "getSavedItems st =
     (case getSavedItems_try st of
        Inl e \<Rightarrow> Inr (JArr [])
      | Inr v \<Rightarrow> Inr v)"

text \<open>
  \<^verbatim>\<open>saveItem\<close> and \<^verbatim>\<open>removeItem\<close> write the storage: they return their result and the
  storage after the call. An element that \<^verbatim>\<open>find\<close> returns satisfies the predicate, so
  it is an object, and \<^verbatim>\<open>!saved.find(p)\<close> holds exactly when nothing is found.
  \<^verbatim>\<open>
  saveItem: (item: SwipeCardData) => {
    try {
      const saved = savedItemsManager.getSavedItems();
      if (!saved.find((s) => s.id === item.id)) {
        const updated = [...saved, item];
        localStorage.setItem('lotus_saved_items', JSON.stringify(updated));
        return true;
      }
      return false;
    } catch { return false; }
  }
  removeItem: (itemId: string) => {
    try {
      const saved = savedItemsManager.getSavedItems();
      const updated = saved.filter((s) => s.id !== itemId);
      localStorage.setItem('lotus_saved_items', JSON.stringify(updated));
      return true;
    } catch { return false; }
  }
  \<close>
\<close>

definition saveItem_try :: "SwipeCardData \<Rightarrow> storage \<Rightarrow> (exn + bool) \<times> storage" where
  "saveItem_try item st =
     (case getSavedItems st of
        Inl e \<Rightarrow> (Inl e, st)
      | Inr saved \<Rightarrow>
          (case js_find saved (same_id (id_card item)) of
             Inl e \<Rightarrow> (Inl e, st)
           | Inr found \<Rightarrow>
               if found = None
               then (case spread saved of
                       Inl e \<Rightarrow> (Inl e, st)
                     | Inr ss \<Rightarrow>
                         (let updated = JArr (ss @ [card_json item])
                          in case localStorage_setItem st STORAGE_KEY (JSON_stringify updated) of
                               Inl e \<Rightarrow> (Inl e, st)
                             | Inr st' \<Rightarrow> (Inr True, st')))
               else (Inr False, st)))"

definition saveItem :: "SwipeCardData \<Rightarrow> storage \<Rightarrow> (exn + bool) \<times> storage" where
  "saveItem item st =
     (case saveItem_try item st of
        (Inl e, st') \<Rightarrow> (Inr False, st')
      | (Inr b, st') \<Rightarrow> (Inr b, st'))"



text \<open>
  The two readers have no \<^verbatim>\<open>try\<close> of their own: what \<^verbatim>\<open>some\<close> or \<^verbatim>\<open>filter\<close>
  throws reaches the caller.
  \<^verbatim>\<open>
  isSaved: (itemId: string): boolean => {
    const saved = savedItemsManager.getSavedItems();
    return saved.some((s) => s.id === itemId);
  }
  getSavedByType: (type: string): SwipeCardData[] => {
    const saved = savedItemsManager.getSavedItems();
    return saved.filter((s) => s.type === type);
  }
  \<close>
\<close>

definition isSaved :: "string \<Rightarrow> storage \<Rightarrow> exn + bool" where
  "isSaved itemId st =
     (case getSavedItems st of
        Inl e \<Rightarrow> Inl e
      | Inr saved \<Rightarrow> js_some saved (same_id itemId))"

definition getSavedByType :: "string \<Rightarrow> storage \<Rightarrow> exn + json list" where
  "getSavedByType ty st =
     (case getSavedItems st of
        Inl e \<Rightarrow> Inl e
      | Inr saved \<Rightarrow> js_filter saved (same_type ty))"

text \<open>
  Test data: a storage that holds the given text, or nothing, under the key, and the
  text of an array of cards.
\<close>

definition holding :: "blob option \<Rightarrow> access \<Rightarrow> storage" where
  "holding v a = \<lparr>entries = (\<lambda>k. if k = STORAGE_KEY then v else None), access = a\<rparr>"

definition cards_text :: "SwipeCardData list \<Rightarrow> blob" where
  "cards_text cs = Serialized (JArr (map card_json cs))"

section \<open>The gallery (SwipeGallery.tsx)\<close>

text \<open>
  What the gallery shows and logs. A toast is kept by its kind and its texts (the
  pictographs of the titles are left out); \<^verbatim>\<open>trackEvent\<close> logs the name of the event and
  the identifier of the card.
\<close>

datatype toast =
    Info_seen_all
  | Info_already_saved string
  | Success_loved string string "string option"
  | Success_reset

datatype effect = Track string string | Toast toast

text \<open>
  The state of a gallery and of the event loop around it. \<open>currentIndex\<close> is the state
  cell of \<^verbatim>\<open>useState(0)\<close>. \<open>timers\<close> holds the due time of every pending
  \<^verbatim>\<open>setTimeout\<close>; all of them carry the same callback. \<open>clock\<close> is the time, in the
  unit of the delay. \<open>mounted\<close> tells whether the component is still mounted.
  \<open>late_callbacks\<close> is not a variable of the program: it counts the timer callbacks
  that ran after the component was unmounted.
\<close>

record gallery =
  currentIndex :: int
  mounted :: bool
  clock :: nat
  timers :: "nat list"
  late_callbacks :: nat
  effects :: "effect list"
  store :: storage

definition initial_gallery :: "storage \<Rightarrow> gallery" where
  "initial_gallery st =
     \<lparr>currentIndex = 0, mounted = True, clock = 0, timers = [], late_callbacks = 0,
      effects = [], store = st\<rparr>"

definition trackEvent :: "string \<Rightarrow> string \<Rightarrow> gallery \<Rightarrow> gallery" where
  "trackEvent eventName itemId g = g\<lparr>effects := effects g @ [Track eventName itemId]\<rparr>"

definition show_toast :: "toast \<Rightarrow> gallery \<Rightarrow> gallery" where
  "show_toast t g = g\<lparr>effects := effects g @ [Toast t]\<rparr>"

text \<open>
  The updater that both swipe handlers pass to \<^verbatim>\<open>setCurrentIndex\<close>, applied to the state
  cell; \<open>n\<close> is \<^verbatim>\<open>items.length\<close>. Both handlers end with
  \<^verbatim>\<open>
  setTimeout(() => {
    setCurrentIndex((prev) => {
      if (prev >= items.length - 1) {
        toast.info("You've seen all items! Starting over...");
        return 0;
      }
      return prev + 1;
    });
  }, 300);
  \<close>
\<close>

definition advance :: "nat \<Rightarrow> gallery \<Rightarrow> gallery" where
  "advance n g =
     (let prev = currentIndex g
      in if prev \<ge> int n - 1
         then (show_toast Info_seen_all g)\<lparr>currentIndex := 0\<rparr>
         else g\<lparr>currentIndex := prev + 1\<rparr>)"

text \<open>
  \<^verbatim>\<open>setTimeout(callback, delay)\<close>: the callback becomes due \<open>delay\<close> units from now. The
  handle that \<^verbatim>\<open>setTimeout\<close> returns is dropped by the source.
\<close>

definition setTimeout_advance :: "nat \<Rightarrow> gallery \<Rightarrow> gallery" where
  "setTimeout_advance delay g = g\<lparr>timers := timers g @ [clock g + delay]\<rparr>"

definition handleSwipeLeft :: "SwipeCardData \<Rightarrow> gallery \<Rightarrow> gallery" where
  "handleSwipeLeft item g =
     setTimeout_advance 300 (trackEvent ''gallery_swipe_left'' (id_card item) g)"

definition loved :: "SwipeCardData \<Rightarrow> toast" where
  "loved item =
     (case type_card item of
        Room \<Rightarrow> Success_loved (title item) ''Added to your saved rooms'' (Some ''Book Now'')
      | Restaurant \<Rightarrow>
          Success_loved (title item) ''Added to your saved dining'' (Some ''Reserve Table'')
      | Experience \<Rightarrow>
          Success_loved (title item) ''Added to your saved experiences'' (Some ''Learn More'')
      | _ \<Rightarrow> Success_loved (title item) ''Added to your saved items'' None)"

definition handleSwipeRight :: "SwipeCardData \<Rightarrow> gallery \<Rightarrow> gallery" where
  "handleSwipeRight item g =
     (case saveItem item (store g) of
        (wasAdded, st') \<Rightarrow>
          (let g1 = g\<lparr>store := st'\<rparr>;
               g2 = (if wasAdded = Inr True
                     then show_toast (loved item)
                            (trackEvent (''gallery_save_'' @ type_name (type_card item)) (id_card item)
                              (trackEvent ''gallery_swipe_right'' (id_card item) g1))
                     else show_toast (Info_already_saved (title item)) g1)
           in setTimeout_advance 300 g2))"

definition handleReset :: "gallery \<Rightarrow> gallery" where
  "handleReset g = show_toast Success_reset (g\<lparr>currentIndex := 0\<rparr>)"

definition progress :: "nat \<Rightarrow> gallery \<Rightarrow> real" where
  "progress n g = (real_of_int (currentIndex g + 1) / real n) * 100"

text \<open>
  Unmounting runs the cleanups that the effects of the component returned. The only one
  removes the \<^verbatim>\<open>keydown\<close> listener; the source never calls \<^verbatim>\<open>clearTimeout\<close>, so the
  pending timers stay.
\<close>

definition unmount :: "gallery \<Rightarrow> gallery" where
  "unmount g = g\<lparr>mounted := False\<rparr>"

text \<open>
  The callback of a timer calls \<^verbatim>\<open>setCurrentIndex\<close> with the updater; it tests nothing
  before. \<open>elapse n d\<close> lets \<open>d\<close> units of time pass: the timers that are due by then
  run, in the order they were set, and leave the list.
\<close>

definition fire :: "nat \<Rightarrow> gallery \<Rightarrow> gallery" where
  "fire n g =
     advance n (g\<lparr>late_callbacks := (if mounted g then late_callbacks g
                                      else late_callbacks g + 1)\<rparr>)"

definition elapse :: "nat \<Rightarrow> nat \<Rightarrow> gallery \<Rightarrow> gallery" where
  "elapse n d g =
     (let now = clock g + d;
          due = filter (\<lambda>t. t \<le> now) (timers g);
          pending = filter (\<lambda>t. \<not> t \<le> now) (timers g)
      in fold (\<lambda>t. fire n) due (g\<lparr>clock := now, timers := pending\<rparr>))"

section \<open>Properties of the drag gesture\<close>

text \<open>
  Claim C1. A final sample whose horizontal offset is at most 100 and whose horizontal
  velocity is at most 500, both in absolute value, is a cancel: no callback is called
  (the list of calls is as before) and both motion values are set to 0.
\<close>

theorem handleDragEnd_cancel:
  assumes "\<bar>px (offset info)\<bar> \<le> 100" and "\<bar>px (velocity info)\<bar> \<le> 500"
  shows "calls (handleDragEnd data info s) = calls s
       \<and> x (handleDragEnd data info s) = 0
       \<and> y (handleDragEnd data info s) = 0"
  using assms
  by (simp add: handleDragEnd_def SWIPE_THRESHOLD_def SWIPE_VELOCITY_def Let_def)

theorem handleDragEnd_cancel_witness:
  "\<bar>px (offset (sample 100 (- 500)))\<bar> \<le> 100
   \<and> \<bar>px (velocity (sample 100 (- 500)))\<bar> \<le> 500
   \<and> calls (handleDragEnd (mk_card ''r1'' Room ''Suite'') (sample 100 (- 500)) (dragging 100 12)) = []
   \<and> x (handleDragEnd (mk_card ''r1'' Room ''Suite'') (sample 100 (- 500)) (dragging 100 12)) = 0
   \<and> y (handleDragEnd (mk_card ''r1'' Room ''Suite'') (sample 100 (- 500)) (dragging 100 12)) = 0"
  using handleDragEnd_cancel [of "sample 100 (- 500)" "mk_card ''r1'' Room ''Suite''" "dragging 100 12"]
  by (simp add: sample_def dragging_def)

text \<open>
  Claim C2. A final sample whose velocity exceeds 500 or whose offset exceeds 100, in
  absolute value, is a commit. It is a commit to the right (\<^verbatim>\<open>x\<close> is set to 500 and
  \<^verbatim>\<open>onSwipeRight\<close> is called with the card) exactly when the offset or the velocity is
  positive, and a commit to the left (\<^verbatim>\<open>x\<close> is set to -500 and \<^verbatim>\<open>onSwipeLeft\<close> is
  called) otherwise. The second motion value is left as it is.
\<close>

theorem handleDragEnd_commit:
  assumes "\<bar>px (velocity info)\<bar> > 500 \<or> \<bar>px (offset info)\<bar> > 100"
  shows "handleDragEnd data info s =
           (if px (offset info) > 0 \<or> px (velocity info) > 0
            then s\<lparr>isDragging := False, x := 500, calls := calls s @ [OnSwipeRight data]\<rparr>
            else s\<lparr>isDragging := False, x := - 500, calls := calls s @ [OnSwipeLeft data]\<rparr>)"
  using assms
  by (simp add: handleDragEnd_def SWIPE_THRESHOLD_def SWIPE_VELOCITY_def Let_def)

text \<open>
  The samples the claim names: a small offset with a fast velocity of the same sign, and a
  positive velocity on an offset that is zero or negative.
\<close>

theorem handleDragEnd_commit_witness:
  "calls (handleDragEnd (mk_card ''r1'' Room ''Suite'') (sample 10 600) (dragging 10 0))
     = [OnSwipeRight (mk_card ''r1'' Room ''Suite'')]
   \<and> calls (handleDragEnd (mk_card ''r1'' Room ''Suite'') (sample (- 10) (- 600)) (dragging (- 10) 0))
     = [OnSwipeLeft (mk_card ''r1'' Room ''Suite'')]
   \<and> calls (handleDragEnd (mk_card ''r1'' Room ''Suite'') (sample 0 600) (dragging 0 0))
     = [OnSwipeRight (mk_card ''r1'' Room ''Suite'')]
   \<and> calls (handleDragEnd (mk_card ''r1'' Room ''Suite'') (sample (- 150) 5) (dragging (- 150) 0))
     = [OnSwipeRight (mk_card ''r1'' Room ''Suite'')]
   \<and> x (handleDragEnd (mk_card ''r1'' Room ''Suite'') (sample (- 150) 0) (dragging (- 150) 0)) = - 500"
  using handleDragEnd_commit [of "sample 10 600" "mk_card ''r1'' Room ''Suite''" "dragging 10 0"]
        handleDragEnd_commit [of "sample (- 10) (- 600)" "mk_card ''r1'' Room ''Suite''" "dragging (- 10) 0"]
        handleDragEnd_commit [of "sample 0 600" "mk_card ''r1'' Room ''Suite''" "dragging 0 0"]
        handleDragEnd_commit [of "sample (- 150) 5" "mk_card ''r1'' Room ''Suite''" "dragging (- 150) 0"]
        handleDragEnd_commit [of "sample (- 150) 0" "mk_card ''r1'' Room ''Suite''" "dragging (- 150) 0"]
  by (simp add: sample_def dragging_def)

section \<open>Properties of the saved items\<close>

subsection \<open>The array methods on arrays of cards\<close>

lemma same_id_card: "same_id i (card_json c) = Inr (id_card c = i)"
  by (simp add: same_id_def card_json_def)



lemma find_loop_cards:
  "find_loop (same_id i) (map card_json cs)
     = Inr (map_option card_json (find (\<lambda>c. id_card c = i) cs))"
  by (induction cs) (simp_all add: same_id_card)

lemma some_loop_cards:
  "some_loop (same_id i) (map card_json cs) = Inr (list_ex (\<lambda>c. id_card c = i) cs)"
  by (induction cs) (simp_all add: same_id_card)





lemma js_find_array:
  "js_find saved p = Inr found \<Longrightarrow> \<exists>ss. saved = JArr ss \<and> find_loop p ss = Inr found"
  by (cases saved) (simp_all add: js_find_def)


subsection \<open>Reading and writing\<close>

lemma getSavedItems_written:
  "access st = Available \<Longrightarrow>
   getSavedItems (st\<lparr>entries := (entries st)(STORAGE_KEY \<mapsto> Serialized v)\<rparr>) = Inr v"
  by (simp add: getSavedItems_def getSavedItems_try_def localStorage_getItem_def)

lemma getSavedItems_returns: "\<exists>v. getSavedItems st = Inr v"
  by (simp add: getSavedItems_def split: sum.splits)

lemma getSavedItems_unreadable:
  assumes "access st = Blocked
         \<or> entries st STORAGE_KEY = None
         \<or> (\<exists>b e. entries st STORAGE_KEY = Some b \<and> JSON_parse b = Inl e)"
  shows "getSavedItems st = Inr (JArr [])"
  using assms
  by (auto simp add: getSavedItems_def getSavedItems_try_def localStorage_getItem_def
      split: sum.splits option.splits access.splits)

lemma saveItem_absent:
  assumes "access st = Available" and "getSavedItems st = Inr (JArr ss)"
    and "find_loop (same_id (id_card item)) ss = Inr None"
  shows "saveItem item st =
           (Inr True,
            st\<lparr>entries := (entries st)(STORAGE_KEY \<mapsto> Serialized (JArr (ss @ [card_json item])))\<rparr>)"
  using assms
  by (simp add: saveItem_def saveItem_try_def js_find_def spread_def localStorage_setItem_def
      JSON_stringify_def Let_def)

lemma saveItem_present:
  assumes "getSavedItems st = Inr saved"
    and "js_find saved (same_id (id_card item)) = Inr (Some s)"
  shows "saveItem item st = (Inr False, st)"
  using assms
  by (simp add: saveItem_def saveItem_try_def)

lemma saveItem_throws:
  assumes "getSavedItems st = Inr saved"
    and "js_find saved (same_id (id_card item)) = Inl e"
  shows "saveItem item st = (Inr False, st)"
  using assms
  by (simp add: saveItem_def saveItem_try_def)

lemma saveItem_denied:
  assumes "access st \<noteq> Available"
  shows "saveItem item st = (Inr False, st)"
proof -
  obtain saved where g: "getSavedItems st = Inr saved"
    using getSavedItems_returns by blast
  have w: "localStorage_setItem st k v = Inl (if access st = Blocked then SecurityError
      else QuotaExceededError)" for k v
    using assms by (cases "access st") (simp_all add: localStorage_setItem_def)
  show ?thesis
    by (simp add: saveItem_def saveItem_try_def g w Let_def split: sum.splits)
qed




text \<open>The test storages, read.\<close>

lemma holding_access: "access (holding v a) = a"
  by (simp add: holding_def)

lemma holding_entries: "entries (holding v a) STORAGE_KEY = v"
  by (simp add: holding_def)

lemma holding_cards:
  "a \<noteq> Blocked \<Longrightarrow> getSavedItems (holding (Some (cards_text cs)) a) = Inr (JArr (map card_json cs))"
  by (cases a)
    (simp_all add: holding_def cards_text_def getSavedItems_def getSavedItems_try_def
      localStorage_getItem_def)

lemma holding_nothing: "getSavedItems (holding None a) = Inr (JArr [])"
  by (intro getSavedItems_unreadable) (simp add: holding_def)

lemma mk_card_id: "id_card (mk_card k t n) = k"
  by (simp add: mk_card_def)

subsection \<open>Saving\<close>

text \<open>
  Claim C3, as it is stated, fails where the write throws: on an empty set in a storage
  whose quota is exhausted, no saved item has the identifier, and \<^verbatim>\<open>saveItem\<close> returns
  false.
\<close>

theorem saveItem_write_denied_counterexample:
  "getSavedItems (holding None WriteDenied) = Inr (JArr [])
   \<and> isSaved ''r1'' (holding None WriteDenied) = Inr False
   \<and> fst (saveItem (mk_card ''r1'' Room ''Suite'') (holding None WriteDenied)) = Inr False"
  by (simp add: holding_def getSavedItems_def getSavedItems_try_def localStorage_getItem_def
      isSaved_def js_some_def saveItem_def saveItem_try_def js_find_def spread_def
      localStorage_setItem_def Let_def)

text \<open>
  Claim C3, amended. Take a storage that grants reads and writes and whose saved items
  are cards of pairwise distinct identifiers. If an item of the same identifier is saved
  already, \<^verbatim>\<open>saveItem\<close> returns false and leaves the storage as it is; if none is, it
  returns true and the saved items are the former ones followed by the new item. In both
  cases the identifiers stay pairwise distinct. In particular, on an empty set the first
  call returns true and leaves one saved item, and a second call with an item of the same
  identifier returns false and changes nothing.
\<close>

theorem saveItem_add:
  assumes "access st = Available"
    and "getSavedItems st = Inr (JArr (map card_json saved))"
    and "distinct (map id_card saved)"
  shows "(if list_ex (\<lambda>s. id_card s = id_card item) saved
          then saveItem item st = (Inr False, st)
          else fst (saveItem item st) = Inr True
             \<and> getSavedItems (snd (saveItem item st)) = Inr (JArr (map card_json (saved @ [item]))))
       \<and> (\<exists>saved'. getSavedItems (snd (saveItem item st)) = Inr (JArr (map card_json saved'))
             \<and> distinct (map id_card saved'))
       \<and> (saved = [] \<and> id_card item' = id_card item \<longrightarrow>
             fst (saveItem item st) = Inr True
           \<and> getSavedItems (snd (saveItem item st)) = Inr (JArr [card_json item])
           \<and> saveItem item' (snd (saveItem item st)) = (Inr False, snd (saveItem item st)))"
proof (cases "list_ex (\<lambda>s. id_card s = id_card item) saved")
  case True
  then obtain c where "find (\<lambda>s. id_card s = id_card item) saved = Some c"
    by (cases "find (\<lambda>s. id_card s = id_card item) saved")
      (auto simp add: find_None_iff list_ex_iff)
  then have "js_find (JArr (map card_json saved)) (same_id (id_card item)) = Inr (Some (card_json c))"
    by (simp add: js_find_def find_loop_cards)
  with assms(2) have "saveItem item st = (Inr False, st)"
    by (rule saveItem_present)
  with True assms show ?thesis by auto
next
  case False
  let ?st' = "st\<lparr>entries := (entries st)(STORAGE_KEY \<mapsto>
                Serialized (JArr (map card_json saved @ [card_json item])))\<rparr>"
  from False have n: "find_loop (same_id (id_card item)) (map card_json saved) = Inr None"
    by (simp add: find_loop_cards find_None_iff list_ex_iff)
  have s: "saveItem item st = (Inr True, ?st')"
    using assms(1,2) n by (rule saveItem_absent)
  have g: "getSavedItems ?st' = Inr (JArr (map card_json (saved @ [item])))"
    using assms(1) by (simp add: getSavedItems_written)
  have d: "distinct (map id_card (saved @ [item]))"
    using assms(3) False by (auto simp add: list_ex_iff)
  have twice: "saveItem item' ?st' = (Inr False, ?st')" if "id_card item' = id_card item"
  proof -
    have "js_find (JArr (map card_json (saved @ [item]))) (same_id (id_card item'))
        = Inr (map_option card_json (find (\<lambda>c. id_card c = id_card item') (saved @ [item])))"
      by (simp only: js_find_def json.case find_loop_cards)
    moreover have "find (\<lambda>c. id_card c = id_card item') (saved @ [item]) \<noteq> None"
      using that by (auto simp add: find_None_iff)
    ultimately obtain s where
      "js_find (JArr (map card_json (saved @ [item]))) (same_id (id_card item')) = Inr (Some s)"
      by auto
    with g show ?thesis by (rule saveItem_present)
  qed
  have e: "\<exists>saved'. getSavedItems (snd (saveItem item st)) = Inr (JArr (map card_json saved'))
      \<and> distinct (map id_card saved')"
    using s g d by (intro exI [of _ "saved @ [item]"]) simp
  have t: "saved = [] \<and> id_card item' = id_card item \<longrightarrow>
      fst (saveItem item st) = Inr True
      \<and> getSavedItems (snd (saveItem item st)) = Inr (JArr [card_json item])
      \<and> saveItem item' (snd (saveItem item st)) = (Inr False, snd (saveItem item st))"
  proof (intro impI)
    assume h: "saved = [] \<and> id_card item' = id_card item"
    then have "saveItem item' ?st' = (Inr False, ?st')"
      using twice by simp
    with s g h show "fst (saveItem item st) = Inr True
      \<and> getSavedItems (snd (saveItem item st)) = Inr (JArr [card_json item])
      \<and> saveItem item' (snd (saveItem item st)) = (Inr False, snd (saveItem item st))"
      by simp
  qed
  have "fst (saveItem item st) = Inr True
      \<and> getSavedItems (snd (saveItem item st)) = Inr (JArr (map card_json (saved @ [item])))"
    using s g by simp
  with False e t show ?thesis by simp
qed

theorem saveItem_add_witness:
  "access (holding None Available) = Available
   \<and> getSavedItems (holding None Available) = Inr (JArr [])
   \<and> fst (saveItem (mk_card ''r1'' Room ''Suite'') (holding None Available)) = Inr True
   \<and> getSavedItems (snd (saveItem (mk_card ''r1'' Room ''Suite'') (holding None Available)))
       = Inr (JArr [card_json (mk_card ''r1'' Room ''Suite'')])
   \<and> fst (saveItem (mk_card ''r1'' Room ''Other'')
          (snd (saveItem (mk_card ''r1'' Room ''Suite'') (holding None Available)))) = Inr False
   \<and> getSavedItems (snd (saveItem (mk_card ''r1'' Room ''Other'')
          (snd (saveItem (mk_card ''r1'' Room ''Suite'') (holding None Available)))))
       = Inr (JArr [card_json (mk_card ''r1'' Room ''Suite'')])"
proof -
  have g: "getSavedItems (holding None Available) = Inr (JArr (map card_json []))"
    by (simp add: holding_nothing)
  have i: "id_card (mk_card ''r1'' Room ''Other'') = id_card (mk_card ''r1'' Room ''Suite'')"
    by (simp add: mk_card_id)
  show ?thesis
    using g i
      saveItem_add [of "holding None Available" "[]" "mk_card ''r1'' Room ''Suite''"
        "mk_card ''r1'' Room ''Other''"]
    by (simp add: holding_access)
qed




subsection \<open>Removing\<close>




subsection \<open>Failures of the storage\<close>

text \<open>
  Claim C7. When the storage is denied, or holds nothing under the key, or holds a text
  that \<^verbatim>\<open>JSON.parse\<close> rejects, \<^verbatim>\<open>getSavedItems\<close> returns the empty array and throws
  nothing; \<^verbatim>\<open>isSaved\<close> then returns false and \<^verbatim>\<open>getSavedByType\<close> the empty array, and
  neither throws.
\<close>

theorem getSavedItems_degrades:
  assumes "access st = Blocked
         \<or> entries st STORAGE_KEY = None
         \<or> (\<exists>b e. entries st STORAGE_KEY = Some b \<and> JSON_parse b = Inl e)"
  shows "getSavedItems st = Inr (JArr [])
       \<and> isSaved itemId st = Inr False
       \<and> getSavedByType ty st = Inr []"
proof -
  have "getSavedItems st = Inr (JArr [])"
    using assms by (rule getSavedItems_unreadable)
  then show ?thesis
    by (simp add: isSaved_def getSavedByType_def js_some_def js_filter_def)
qed

theorem getSavedItems_degrades_witness:
  "access (holding (Some (cards_text [mk_card ''r1'' Room ''Suite''])) Blocked) = Blocked
   \<and> getSavedItems (holding (Some (cards_text [mk_card ''r1'' Room ''Suite''])) Blocked)
       = Inr (JArr [])
   \<and> isSaved ''r1'' (holding (Some (cards_text [mk_card ''r1'' Room ''Suite''])) Blocked)
       = Inr False
   \<and> entries (holding None Available) STORAGE_KEY = None
   \<and> getSavedItems (holding None Available) = Inr (JArr [])
   \<and> getSavedByType ''room'' (holding None Available) = Inr []
   \<and> JSON_parse (Malformed ''[{'') = Inl SyntaxError
   \<and> getSavedItems (holding (Some (Malformed ''[{'')) Available) = Inr (JArr [])
   \<and> isSaved ''r1'' (holding (Some (Malformed ''[{'')) Available) = Inr False
   \<and> getSavedByType ''room'' (holding (Some (Malformed ''[{'')) Available) = Inr []"
  using
    getSavedItems_degrades [of "holding (Some (cards_text [mk_card ''r1'' Room ''Suite''])) Blocked"
      "''r1''" "''room''"]
    getSavedItems_degrades [of "holding None Available" "''r1''" "''room''"]
    getSavedItems_degrades [of "holding (Some (Malformed ''[{'')) Available" "''r1''" "''room''"]
  by (simp add: holding_access holding_entries)

text \<open>
  Claim C10, as it is stated, fails where the read fails and the write succeeds: on a text
  that \<^verbatim>\<open>JSON.parse\<close> rejects, \<^verbatim>\<open>saveItem\<close> returns true and replaces the text.
\<close>

theorem saveItem_malformed_counterexample:
  "JSON_parse (Malformed ''{not json'') = Inl SyntaxError
   \<and> fst (saveItem (mk_card ''r1'' Room ''Suite'')
        (holding (Some (Malformed ''{not json'')) Available)) = Inr True
   \<and> entries (snd (saveItem (mk_card ''r1'' Room ''Suite'')
        (holding (Some (Malformed ''{not json'')) Available))) STORAGE_KEY
     = Some (Serialized (JArr [card_json (mk_card ''r1'' Room ''Suite'')]))
   \<and> entries (holding (Some (Malformed ''{not json'')) Available) STORAGE_KEY
     = Some (Malformed ''{not json'')"
  by (simp add: holding_def getSavedItems_def getSavedItems_try_def localStorage_getItem_def
      saveItem_def saveItem_try_def js_find_def spread_def localStorage_setItem_def
      JSON_stringify_def Let_def)

text \<open>
  Claim C10, amended. Whenever the write throws, and whenever the read of the storage
  throws (the write throws then too), \<^verbatim>\<open>saveItem\<close> returns false and the storage is as
  before; it returns false in the same way, with the storage as before, for an item that is
  saved already, so the result alone does not tell the two apart. A text that
  \<^verbatim>\<open>JSON.parse\<close> rejects is not such a failure: where the write succeeds, \<^verbatim>\<open>saveItem\<close>
  returns true and replaces the text by the array that holds the item alone.
\<close>

theorem saveItem_failure:
  "(localStorage_setItem st STORAGE_KEY v = Inl e1 \<longrightarrow> saveItem item st = (Inr False, st))
   \<and> (localStorage_getItem st STORAGE_KEY = Inl e2 \<longrightarrow> saveItem item st = (Inr False, st))
   \<and> (isSaved (id_card item) st = Inr True \<longrightarrow> saveItem item st = (Inr False, st))
   \<and> (localStorage_setItem st STORAGE_KEY (JSON_stringify (JArr [card_json item])) = Inr st'
        \<and> entries st STORAGE_KEY = Some b \<and> JSON_parse b = Inl e3 \<longrightarrow>
        saveItem item st = (Inr True, st')
        \<and> entries st' STORAGE_KEY = Some (JSON_stringify (JArr [card_json item])))"
proof -
  have 1: "saveItem item st = (Inr False, st)"
    if "localStorage_setItem st STORAGE_KEY v = Inl e1"
  proof -
    from that have "access st \<noteq> Available"
      by (auto simp add: localStorage_setItem_def)
    then show ?thesis by (rule saveItem_denied)
  qed
  have 2: "saveItem item st = (Inr False, st)"
    if "localStorage_getItem st STORAGE_KEY = Inl e2"
  proof -
    from that have "access st \<noteq> Available"
      by (auto simp add: localStorage_getItem_def)
    then show ?thesis by (rule saveItem_denied)
  qed
  have 3: "saveItem item st = (Inr False, st)"
    if h: "isSaved (id_card item) st = Inr True"
  proof -
    obtain saved where g: "getSavedItems st = Inr saved"
      using getSavedItems_returns by blast
    show ?thesis
    proof (cases "js_find saved (same_id (id_card item))")
      case (Inl e)
      with g show ?thesis by (rule saveItem_throws)
    next
      case (Inr found)
      then obtain ss where a: "saved = JArr ss"
        and f: "find_loop (same_id (id_card item)) ss = Inr found"
        using js_find_array by blast
      from h g a have s: "some_loop (same_id (id_card item)) ss = Inr True"
        by (simp add: isSaved_def js_some_def)
      have "found \<noteq> None"
      proof
        assume "found = None"
        with f have "some_loop (same_id (id_card item)) ss = Inr False"
          by (induction ss) (auto split: sum.splits if_splits)
        with s show False by simp
      qed
      then obtain t where "js_find saved (same_id (id_card item)) = Inr (Some t)"
        using Inr by auto
      with g show ?thesis by (rule saveItem_present)
    qed
  qed
  have 4: "saveItem item st = (Inr True, st')
      \<and> entries st' STORAGE_KEY = Some (JSON_stringify (JArr [card_json item]))"
    if h: "localStorage_setItem st STORAGE_KEY (JSON_stringify (JArr [card_json item])) = Inr st'
      \<and> entries st STORAGE_KEY = Some b \<and> JSON_parse b = Inl e3"
  proof -
    from h have a: "access st = Available"
      by (cases "access st") (simp_all add: localStorage_setItem_def)
    with h have w: "st' = st\<lparr>entries := (entries st)(STORAGE_KEY \<mapsto>
        JSON_stringify (JArr [card_json item]))\<rparr>"
      by (simp add: localStorage_setItem_def)
    have "getSavedItems st = Inr (JArr [])"
      using h by (intro getSavedItems_unreadable) blast
    then have "saveItem item st = (Inr True, st')"
      using a w saveItem_absent [of st "[]" item] by (simp add: JSON_stringify_def)
    then show ?thesis
      using w by simp
  qed
  from 1 2 3 4 show ?thesis by blast
qed

theorem saveItem_failure_witness:
  "localStorage_setItem (holding (Some (cards_text [mk_card ''r1'' Room ''Suite''])) WriteDenied)
      STORAGE_KEY (Serialized (JArr [])) = Inl QuotaExceededError
   \<and> saveItem (mk_card ''e7'' Event ''Gala'')
         (holding (Some (cards_text [mk_card ''r1'' Room ''Suite''])) WriteDenied)
       = (Inr False, holding (Some (cards_text [mk_card ''r1'' Room ''Suite''])) WriteDenied)
   \<and> localStorage_getItem (holding None Blocked) STORAGE_KEY = Inl SecurityError
   \<and> saveItem (mk_card ''e7'' Event ''Gala'') (holding None Blocked)
       = (Inr False, holding None Blocked)
   \<and> isSaved ''r1'' (holding (Some (cards_text [mk_card ''r1'' Room ''Suite''])) Available)
       = Inr True
   \<and> saveItem (mk_card ''r1'' Room ''Suite'')
         (holding (Some (cards_text [mk_card ''r1'' Room ''Suite''])) Available)
       = (Inr False, holding (Some (cards_text [mk_card ''r1'' Room ''Suite''])) Available)
   \<and> JSON_parse (Malformed ''{not json'') = Inl SyntaxError
   \<and> fst (saveItem (mk_card ''r1'' Room ''Suite'')
         (holding (Some (Malformed ''{not json'')) Available)) = Inr True
   \<and> entries (snd (saveItem (mk_card ''r1'' Room ''Suite'')
         (holding (Some (Malformed ''{not json'')) Available))) STORAGE_KEY
       = Some (Serialized (JArr [card_json (mk_card ''r1'' Room ''Suite'')]))"
proof -
  let ?c = "mk_card ''r1'' Room ''Suite''"
  let ?m = "holding (Some (Malformed ''{not json'')) Available"
  have d: "localStorage_setItem (holding (Some (cards_text [?c])) WriteDenied)
      STORAGE_KEY (Serialized (JArr [])) = Inl QuotaExceededError"
    by (simp add: localStorage_setItem_def holding_def)
  have k: "localStorage_getItem (holding None Blocked) STORAGE_KEY = Inl SecurityError"
    by (simp add: localStorage_getItem_def holding_def)
  have s: "isSaved ''r1'' (holding (Some (cards_text [?c])) Available) = Inr True"
    by (simp add: isSaved_def holding_cards js_some_def same_id_card mk_card_id)
  have w: "localStorage_setItem ?m STORAGE_KEY (JSON_stringify (JArr [card_json ?c]))
      = Inr (?m\<lparr>entries := (entries ?m)(STORAGE_KEY \<mapsto> JSON_stringify (JArr [card_json ?c]))\<rparr>)"
    by (simp add: localStorage_setItem_def holding_def)
  show ?thesis
    using d k s w
      saveItem_failure [of "holding (Some (cards_text [?c])) WriteDenied" "Serialized (JArr [])"
        QuotaExceededError "mk_card ''e7'' Event ''Gala''"]
      saveItem_failure [of "holding None Blocked" _ _ "mk_card ''e7'' Event ''Gala''" SecurityError]
      saveItem_failure [of "holding (Some (cards_text [?c])) Available" _ _ ?c]
      saveItem_failure [of ?m _ _ ?c _
        "?m\<lparr>entries := (entries ?m)(STORAGE_KEY \<mapsto> JSON_stringify (JArr [card_json ?c]))\<rparr>"
        "Malformed ''{not json''" SyntaxError]
    by (simp add: holding_entries mk_card_id JSON_stringify_def)
qed

section \<open>Properties of the gallery\<close>


lemma advance_below:
  assumes "currentIndex g + 1 < int n"
  shows "advance n g = g\<lparr>currentIndex := currentIndex g + 1\<rparr>"
  using assms by (simp add: advance_def Let_def)

lemma advance_last:
  assumes "int n \<le> currentIndex g + 1"
  shows "advance n g = (show_toast Info_seen_all g)\<lparr>currentIndex := 0\<rparr>"
  using assms by (simp add: advance_def Let_def)

lemma advance_index_of:
  "currentIndex (advance n g) = (if int n - 1 \<le> currentIndex g then 0 else currentIndex g + 1)"
  by (simp add: advance_def show_toast_def Let_def)

lemma advance_steps:
  assumes "currentIndex g + int k < int n"
  shows "(advance n ^^ k) g = g\<lparr>currentIndex := currentIndex g + int k\<rparr>"
  using assms
proof (induction k)
  case 0
  show ?case by simp
next
  case (Suc k)
  then have "(advance n ^^ k) g = g\<lparr>currentIndex := currentIndex g + int k\<rparr>"
    by simp
  moreover have "advance n (g\<lparr>currentIndex := currentIndex g + int k\<rparr>)
      = g\<lparr>currentIndex := currentIndex g + int k + 1\<rparr>"
    using Suc.prems by (simp add: advance_below)
  ultimately show ?case
    by (simp add: add.assoc)
qed

lemma advance_full_pass:
  assumes "0 \<le> currentIndex g" and "currentIndex g < int n"
  shows "(advance n ^^ n) g = show_toast Info_seen_all g"
proof -
  define a where "a = nat (int n - 1 - currentIndex g)"
  define b where "b = nat (currentIndex g)"
  have n: "n = b + (1 + a)"
    using assms by (simp add: a_def b_def nat_eq_iff)
  have 1: "(advance n ^^ a) g = g\<lparr>currentIndex := int n - 1\<rparr>"
    using assms advance_steps [of g a n] by (simp add: a_def)
  have 2: "advance n (g\<lparr>currentIndex := int n - 1\<rparr>)
      = (show_toast Info_seen_all g)\<lparr>currentIndex := 0\<rparr>"
    by (simp add: advance_last show_toast_def)
  have 3: "(advance n ^^ b) ((show_toast Info_seen_all g)\<lparr>currentIndex := 0\<rparr>)
      = show_toast Info_seen_all g"
    using assms advance_steps [of "(show_toast Info_seen_all g)\<lparr>currentIndex := 0\<rparr>" b n]
    by (simp add: b_def show_toast_def)
  have "(advance n ^^ n) g = (advance n ^^ b) (advance n ((advance n ^^ a) g))"
    by (subst n) (simp add: funpow_add funpow_swap1)
  then show ?thesis
    by (simp add: 1 2 3)
qed

text \<open>
  Claim C5. On a cursor within its range, the updater sets the index to the successor
  modulo the number of items, and shows the toast of exhaustion exactly when the index
  wraps. A full pass, as many calls as there are items, brings the index back where it was
  and shows that toast exactly once. A swipe to either side, followed by the delay of 300
  units, runs the updater. With three items and the index at 0, the first two calls show
  nothing and the third shows the toast and returns to 0.
\<close>

theorem advance_cycle:
  assumes "0 \<le> currentIndex g" and "currentIndex g < int n"
  shows "currentIndex (advance n g) = (currentIndex g + 1) mod int n
       \<and> effects (advance n g)
           = effects g @ (if currentIndex g + 1 = int n then [Toast Info_seen_all] else [])
       \<and> (advance n ^^ n) g = show_toast Info_seen_all g
       \<and> (timers g = [] \<longrightarrow>
            currentIndex (elapse n 300 (handleSwipeLeft item g)) = (currentIndex g + 1) mod int n
          \<and> currentIndex (elapse n 300 (handleSwipeRight item g)) = (currentIndex g + 1) mod int n)"
proof -
  have m: "(if int n - 1 \<le> currentIndex g then 0 else currentIndex g + 1)
      = (currentIndex g + 1) mod int n"
  proof (cases "int n - 1 \<le> currentIndex g")
    case True
    with assms have "currentIndex g + 1 = int n" by simp
    with True show ?thesis by simp
  next
    case False
    with assms show ?thesis by simp
  qed
  have i: "currentIndex (advance n g) = (currentIndex g + 1) mod int n"
    by (simp only: advance_index_of m)
  have e: "effects (advance n g)
      = effects g @ (if currentIndex g + 1 = int n then [Toast Info_seen_all] else [])"
    using assms by (auto simp add: advance_def show_toast_def Let_def)
  have p: "(advance n ^^ n) g = show_toast Info_seen_all g"
    using assms by (rule advance_full_pass)
  have l: "currentIndex (elapse n 300 (handleSwipeLeft item g)) = (currentIndex g + 1) mod int n"
    if "timers g = []"
  proof -
    have "currentIndex (elapse n 300 (handleSwipeLeft item g))
        = (if int n - 1 \<le> currentIndex g then 0 else currentIndex g + 1)"
      using that
      by (simp add: elapse_def handleSwipeLeft_def setTimeout_advance_def trackEvent_def
          fire_def advance_index_of Let_def)
    then show ?thesis by (simp only: m)
  qed
  have r: "currentIndex (elapse n 300 (handleSwipeRight item g)) = (currentIndex g + 1) mod int n"
    if "timers g = []"
  proof -
    have "currentIndex (elapse n 300 (handleSwipeRight item g))
        = (if int n - 1 \<le> currentIndex g then 0 else currentIndex g + 1)"
      using that
      by (simp add: elapse_def handleSwipeRight_def setTimeout_advance_def trackEvent_def
          show_toast_def fire_def advance_index_of Let_def split: prod.splits)
    then show ?thesis by (simp only: m)
  qed
  from i e p l r show ?thesis by simp
qed


theorem advance_cycle_witness:
  "currentIndex (initial_gallery (holding None Available)) = 0
   \<and> currentIndex (advance 3 (initial_gallery (holding None Available))) = 1
   \<and> effects (advance 3 (initial_gallery (holding None Available))) = []
   \<and> currentIndex (advance 3 (advance 3 (initial_gallery (holding None Available)))) = 2
   \<and> effects (advance 3 (advance 3 (initial_gallery (holding None Available)))) = []
   \<and> currentIndex (advance 3 (advance 3 (advance 3 (initial_gallery (holding None Available))))) = 0
   \<and> effects (advance 3 (advance 3 (advance 3 (initial_gallery (holding None Available)))))
       = [Toast Info_seen_all]
   \<and> currentIndex (elapse 3 300 (handleSwipeLeft (mk_card ''r1'' Room ''Suite'')
        (advance 3 (advance 3 (initial_gallery (holding None Available)))))) = 0"
proof -
  let ?g0 = "initial_gallery (holding None Available)"
  have 0: "currentIndex ?g0 = 0" "effects ?g0 = []"
    by (simp_all add: initial_gallery_def)
  have 1: "currentIndex (advance 3 ?g0) = 1" "effects (advance 3 ?g0) = []"
    using advance_cycle [of ?g0 3] by (simp_all add: 0)
  have 2: "currentIndex (advance 3 (advance 3 ?g0)) = 2" "effects (advance 3 (advance 3 ?g0)) = []"
    using advance_cycle [of "advance 3 ?g0" 3] by (simp_all add: 1)
  have 3: "currentIndex (advance 3 (advance 3 (advance 3 ?g0))) = 0"
    "effects (advance 3 (advance 3 (advance 3 ?g0))) = [Toast Info_seen_all]"
    using advance_cycle [of "advance 3 (advance 3 ?g0)" 3] by (simp_all add: 2)
  have t: "timers (advance 3 (advance 3 ?g0)) = []"
    by (simp add: advance_def show_toast_def initial_gallery_def Let_def)
  have 4: "currentIndex (elapse 3 300 (handleSwipeLeft (mk_card ''r1'' Room ''Suite'')
      (advance 3 (advance 3 ?g0)))) = 0"
    using advance_cycle [of "advance 3 (advance 3 ?g0)" 3 "mk_card ''r1'' Room ''Suite''"]
    by (simp add: 2 t)
  show ?thesis
    by (simp add: 0 1 2 3 4)
qed

lemma advance_in_range:
  assumes "0 \<le> currentIndex g" and "currentIndex g < int n"
  shows "0 \<le> currentIndex (advance n g) \<and> currentIndex (advance n g) < int n"
  using assms by (simp add: advance_def show_toast_def Let_def)

lemma fire_in_range:
  assumes "0 \<le> currentIndex g" and "currentIndex g < int n"
  shows "0 \<le> currentIndex (fire n g) \<and> currentIndex (fire n g) < int n"
  using assms by (simp add: fire_def advance_in_range)

lemma fold_fire_in_range:
  assumes "0 \<le> currentIndex g" and "currentIndex g < int n"
  shows "0 \<le> currentIndex (fold (\<lambda>t. fire n) ts g)
       \<and> currentIndex (fold (\<lambda>t. fire n) ts g) < int n"
  using assms
proof (induction ts arbitrary: g)
  case Nil
  then show ?case by simp
next
  case (Cons t ts)
  have "0 \<le> currentIndex (fire n g) \<and> currentIndex (fire n g) < int n"
    using Cons.prems by (rule fire_in_range)
  then show ?case
    using Cons.IH [of "fire n g"] by simp
qed

lemma elapse_in_range:
  assumes "0 \<le> currentIndex g" and "currentIndex g < int n"
  shows "0 \<le> currentIndex (elapse n d g) \<and> currentIndex (elapse n d g) < int n"
  using assms by (simp add: elapse_def Let_def fold_fire_in_range)

text \<open>
  Claim C8. With at least one item, every step of the gallery keeps the index within
  \<open>0 \<le> currentIndex < n\<close>: the updater, the reset, the passing of time with its
  timers, and the two swipe handlers, which do not touch the index. After a wrap the index
  is 0. The ratio \<open>(currentIndex + 1) / n\<close> lies in the interval from 0, excluded, to 1,
  included; the source shows it as a percentage. The quotient is taken over the reals.
\<close>

theorem cursor_invariant:
  assumes "1 \<le> n" and "0 \<le> currentIndex g" and "currentIndex g < int n"
  shows "0 \<le> currentIndex (advance n g) \<and> currentIndex (advance n g) < int n
       \<and> 0 \<le> currentIndex (handleReset g) \<and> currentIndex (handleReset g) < int n
       \<and> 0 \<le> currentIndex (elapse n d g) \<and> currentIndex (elapse n d g) < int n
       \<and> currentIndex (handleSwipeLeft item g) = currentIndex g
       \<and> currentIndex (handleSwipeRight item g) = currentIndex g
       \<and> (int n - 1 \<le> currentIndex g \<longrightarrow> currentIndex (advance n g) = 0)
       \<and> 0 < real_of_int (currentIndex g + 1) / real n
       \<and> real_of_int (currentIndex g + 1) / real n \<le> 1
       \<and> progress n g = real_of_int (currentIndex g + 1) / real n * 100"
proof -
  have a: "0 \<le> currentIndex (advance n g) \<and> currentIndex (advance n g) < int n"
    using assms(2,3) by (rule advance_in_range)
  have r: "0 \<le> currentIndex (handleReset g) \<and> currentIndex (handleReset g) < int n"
    using assms(1) by (simp add: handleReset_def show_toast_def)
  have e: "0 \<le> currentIndex (elapse n d g) \<and> currentIndex (elapse n d g) < int n"
    using assms(2,3) by (rule elapse_in_range)
  have l: "currentIndex (handleSwipeLeft item g) = currentIndex g"
    by (simp add: handleSwipeLeft_def setTimeout_advance_def trackEvent_def)
  have s: "currentIndex (handleSwipeRight item g) = currentIndex g"
    by (simp add: handleSwipeRight_def setTimeout_advance_def trackEvent_def show_toast_def
        Let_def split: prod.splits)
  have w: "int n - 1 \<le> currentIndex g \<longrightarrow> currentIndex (advance n g) = 0"
    by (simp add: advance_last)
  have p: "0 < real_of_int (currentIndex g + 1) / real n"
    using assms by simp
  have q: "real_of_int (currentIndex g + 1) / real n \<le> 1"
    using assms by simp
  show ?thesis
    using a r e l s w p q by (simp add: progress_def)
qed

theorem cursor_invariant_witness:
  "(1::nat) \<le> 3
   \<and> currentIndex (advance 3 (initial_gallery (holding None Available)\<lparr>currentIndex := 2\<rparr>)) = 0
   \<and> currentIndex (handleReset (initial_gallery (holding None Available)\<lparr>currentIndex := 2\<rparr>)) = 0
   \<and> progress 3 (initial_gallery (holding None Available)\<lparr>currentIndex := 2\<rparr>) = 100
   \<and> 0 \<le> currentIndex (elapse 3 300 (handleSwipeLeft (mk_card ''r1'' Room ''Suite'')
              (initial_gallery (holding None Available)\<lparr>currentIndex := 2\<rparr>)))
   \<and> currentIndex (elapse 3 300 (handleSwipeLeft (mk_card ''r1'' Room ''Suite'')
          (initial_gallery (holding None Available)\<lparr>currentIndex := 2\<rparr>))) < 3"
proof -
  let ?g = "initial_gallery (holding None Available)\<lparr>currentIndex := 2\<rparr>"
  let ?c = "mk_card ''r1'' Room ''Suite''"
  have i: "currentIndex ?g = 2" by simp
  show ?thesis
    using cursor_invariant [of 3 ?g 0 ?c] cursor_invariant [of 3 "handleSwipeLeft ?c ?g" 300 ?c]
    by (simp add: handleReset_def show_toast_def)
qed

text \<open>
  Claim C9, as it is stated, fails: a swipe, an unmount 100 units later and 200 units
  more leave the timer pending through the unmount and run its callback after it.
\<close>

theorem deferred_advance_counterexample:
  "mounted (unmount (elapse 3 100 (handleSwipeLeft (mk_card ''r1'' Room ''Suite'')
      (initial_gallery (holding None Available))))) = False
   \<and> timers (unmount (elapse 3 100 (handleSwipeLeft (mk_card ''r1'' Room ''Suite'')
      (initial_gallery (holding None Available))))) = [300]
   \<and> late_callbacks (elapse 3 200 (unmount (elapse 3 100
      (handleSwipeLeft (mk_card ''r1'' Room ''Suite'')
        (initial_gallery (holding None Available)))))) = 1"
  by (simp add: elapse_def handleSwipeLeft_def setTimeout_advance_def trackEvent_def
      unmount_def fire_def advance_def show_toast_def initial_gallery_def Let_def)

text \<open>
  Claim C9, amended. The callback that a commit schedules is not cancelled by the
  teardown: when the gallery is unmounted before the 300 units have passed, the timer is
  still pending after the unmount, and once the delay has passed its callback has run,
  once, and no timer is left. This holds for a commit to the left and to the right.
\<close>

theorem deferred_advance_survives_unmount:
  assumes "timers g = []" and "d < 300" and "300 \<le> d + d'"
  shows "timers (unmount (elapse n d (handleSwipeLeft item g))) = [clock g + 300]
       \<and> late_callbacks (elapse n d' (unmount (elapse n d (handleSwipeLeft item g))))
           = late_callbacks g + 1
       \<and> timers (elapse n d' (unmount (elapse n d (handleSwipeLeft item g)))) = []
       \<and> timers (unmount (elapse n d (handleSwipeRight item g))) = [clock g + 300]
       \<and> late_callbacks (elapse n d' (unmount (elapse n d (handleSwipeRight item g))))
           = late_callbacks g + 1
       \<and> timers (elapse n d' (unmount (elapse n d (handleSwipeRight item g)))) = []"
proof -
  have left: "timers (unmount (elapse n d (handleSwipeLeft item g))) = [clock g + 300]
       \<and> late_callbacks (elapse n d' (unmount (elapse n d (handleSwipeLeft item g))))
           = late_callbacks g + 1
       \<and> timers (elapse n d' (unmount (elapse n d (handleSwipeLeft item g)))) = []"
    using assms
    by (simp add: elapse_def handleSwipeLeft_def setTimeout_advance_def trackEvent_def
        unmount_def fire_def advance_def show_toast_def Let_def)
  have right: "timers (unmount (elapse n d (handleSwipeRight item g))) = [clock g + 300]
       \<and> late_callbacks (elapse n d' (unmount (elapse n d (handleSwipeRight item g))))
           = late_callbacks g + 1
       \<and> timers (elapse n d' (unmount (elapse n d (handleSwipeRight item g)))) = []"
    using assms
    by (simp add: elapse_def handleSwipeRight_def setTimeout_advance_def trackEvent_def
        unmount_def fire_def advance_def show_toast_def Let_def split: prod.splits)
  from left right show ?thesis by simp
qed

theorem deferred_advance_survives_unmount_witness:
  "timers (initial_gallery (holding None Available)) = []
   \<and> (100::nat) < 300 \<and> (300::nat) \<le> 100 + 200
   \<and> timers (unmount (elapse 3 100 (handleSwipeRight (mk_card ''r1'' Room ''Suite'')
        (initial_gallery (holding None Available))))) = [300]
   \<and> late_callbacks (elapse 3 200 (unmount (elapse 3 100
        (handleSwipeRight (mk_card ''r1'' Room ''Suite'')
          (initial_gallery (holding None Available)))))) = 1
   \<and> timers (elapse 3 200 (unmount (elapse 3 100
        (handleSwipeRight (mk_card ''r1'' Room ''Suite'')
          (initial_gallery (holding None Available)))))) = []"
proof -
  let ?g0 = "initial_gallery (holding None Available)"
  have 0: "timers ?g0 = []" "clock ?g0 = 0" "late_callbacks ?g0 = 0"
    by (simp_all add: initial_gallery_def)
  show ?thesis
    using deferred_advance_survives_unmount [of ?g0 100 200 3 "mk_card ''r1'' Room ''Suite''"]
    by (simp add: 0)
qed

end
